theory Spec2Isabelle
  imports Main "HOL-Library.Sublist"
begin

section \<open>Text and the pattern engine used by the rewrite rules\<close>

text \<open>
  The module \<open>src/parser/snowflake_parser.py\<close> rewrites SQL text with Python's
  \<open>re.sub\<close> and \<open>str.rstrip\<close>. SQL text is a \<open>string\<close>; a character stands for the code
  point of the same number, so the development covers text over the code points below 256.
  Every literal character of every pattern in the module is ASCII.

  \<open>re.sub\<close> belongs to Python's standard library. Its behaviour on the constructs the module
  uses is modelled here as a backtracking matcher: alternatives are tried in priority order
  (greedy repetition first takes one more iteration, an alternation first takes its left
  branch), the search moves left to right through the text, and the first success at the
  leftmost position is replaced.
\<close>

text \<open>
  The flags the module passes. \<open>re.MULTILINE\<close> changes the meaning of \<open>^\<close> and \<open>$\<close> only; no
  pattern of the module uses either, so the flag is carried and read nowhere.
\<close>

datatype flag = IGNORECASE | MULTILINE | DOTALL

text \<open>Members of a bracketed set \<open>[...]\<close>; \<open>\s\<close>, \<open>\w\<close> and \<open>\d\<close> are categories.\<close>

datatype citem = Ch char | Rng char char | CatSpace | CatWord | CatDigit

datatype regex =
    Lit char
  | Any
  | In "citem list"
  | NotIn "citem list"
  | Eps
  | Seq regex regex
  | Alt regex regex
  | Star regex
  | Group nat regex

definition Plus :: "regex \<Rightarrow> regex" where
  "Plus r = Seq r (Star r)"

definition Opt :: "regex \<Rightarrow> regex" where
  "Opt r = Alt r Eps"

definition seq :: "regex list \<Rightarrow> regex" where
  "seq rs = foldr Seq rs Eps"

definition lit :: "string \<Rightarrow> regex" where
  "lit w = foldr (\<lambda>c r. Seq (Lit c) r) w Eps"

text \<open>
  Character predicates, on code points below 256, as \<open>str.isspace\<close>, \<open>\w\<close> and \<open>\d\<close> of
  Python 3 classify them.
\<close>

definition is_space :: "char \<Rightarrow> bool" where
  "is_space c = (let n = (of_char c :: nat) in
     (9 \<le> n \<and> n \<le> 13) \<or> (28 \<le> n \<and> n \<le> 32) \<or> n = 133 \<or> n = 160)"

definition is_digit :: "char \<Rightarrow> bool" where
  "is_digit c = (let n = (of_char c :: nat) in 48 \<le> n \<and> n \<le> 57)"

definition is_word :: "char \<Rightarrow> bool" where
  "is_word c = (let n = (of_char c :: nat) in
     (48 \<le> n \<and> n \<le> 57) \<or> (65 \<le> n \<and> n \<le> 90) \<or> n = 95 \<or> (97 \<le> n \<and> n \<le> 122)
     \<or> n = 170 \<or> n = 178 \<or> n = 179 \<or> n = 181 \<or> n = 185 \<or> n = 186
     \<or> (188 \<le> n \<and> n \<le> 190) \<or> (192 \<le> n \<and> n \<le> 214) \<or> (216 \<le> n \<and> n \<le> 246)
     \<or> 248 \<le> n)"

definition lower :: "char \<Rightarrow> char" where
  "lower c = (let n = (of_char c :: nat) in
     if 65 \<le> n \<and> n \<le> 90 then char_of (n + 32) else c)"

text \<open>
  A literal of the pattern against a character of the text. Under \<open>re.IGNORECASE\<close> an ASCII
  literal matches its two cases.
\<close>

definition lit_eq :: "flag list \<Rightarrow> char \<Rightarrow> char \<Rightarrow> bool" where
  "lit_eq fl c x = (if IGNORECASE \<in> set fl then lower c = lower x else c = x)"

text \<open>\<open>.\<close> matches everything but a line feed, and everything under \<open>re.DOTALL\<close>.\<close>

definition any_ok :: "flag list \<Rightarrow> char \<Rightarrow> bool" where
  "any_ok fl x = (if DOTALL \<in> set fl then True else x \<noteq> CHR 0x0A)"

text \<open>
  No set of the module holds a cased character, so \<open>re.IGNORECASE\<close> does not reach the
  sets: the compiler emits the plain membership test for them.
\<close>

fun item_ok :: "citem \<Rightarrow> char \<Rightarrow> bool" where
  "item_ok (Ch c) x = (c = x)"
| "item_ok (Rng a b) x = ((of_char a :: nat) \<le> of_char x \<and> (of_char x :: nat) \<le> of_char b)"
| "item_ok CatSpace x = is_space x"
| "item_ok CatWord x = is_word x"
| "item_ok CatDigit x = is_digit x"

fun in_set :: "citem list \<Rightarrow> char \<Rightarrow> bool" where
  "in_set [] x = False"
| "in_set (i # is) x = (item_ok i x \<or> in_set is x)"

type_synonym groups = "nat \<rightharpoonup> string"

text \<open>
  \<open>rmatch fl r s g\<close> lists, in priority order, every way \<open>r\<close> matches a prefix of \<open>s\<close>: the
  text left after the match and the groups captured so far.
\<close>

function rmatch :: "flag list \<Rightarrow> regex \<Rightarrow> string \<Rightarrow> groups \<Rightarrow> (string \<times> groups) list" where
  "rmatch fl (Lit c) [] g = []"
| "rmatch fl (Lit c) (x # xs) g = (if lit_eq fl c x then [(xs, g)] else [])"
| "rmatch fl Any [] g = []"
| "rmatch fl Any (x # xs) g = (if any_ok fl x then [(xs, g)] else [])"
| "rmatch fl (In cs) [] g = []"
| "rmatch fl (In cs) (x # xs) g = (if in_set cs x then [(xs, g)] else [])"
| "rmatch fl (NotIn cs) [] g = []"
| "rmatch fl (NotIn cs) (x # xs) g = (if in_set cs x then [] else [(xs, g)])"
| "rmatch fl Eps s g = [(s, g)]"
| "rmatch fl (Seq a b) s g =
     concat (map (\<lambda>m. rmatch fl b (fst m) (snd m)) (rmatch fl a s g))"
| "rmatch fl (Alt a b) s g = rmatch fl a s g @ rmatch fl b s g"
| "rmatch fl (Star a) s g =
     concat (map (\<lambda>m. if length (fst m) < length s then rmatch fl (Star a) (fst m) (snd m) else [])
                 (rmatch fl a s g))
     @ [(s, g)]"
| "rmatch fl (Group n a) s g =
     map (\<lambda>m. (fst m, (snd m)(n \<mapsto> take (length s - length (fst m)) s))) (rmatch fl a s g)"
  by pat_completeness auto
termination
  by (relation "inv_image (less_than <*lex*> less_than) (\<lambda>(fl, r, s, g). (size r, length s))")
     auto

declare rmatch.simps(12) [simp del]

lemma rmatch_length: "m \<in> set (rmatch fl r s g) \<Longrightarrow> length (fst m) \<le> length s"
proof (induction fl r s g arbitrary: m rule: rmatch.induct)
  case (10 fl a b s g)
  then obtain m1 where m1: "m1 \<in> set (rmatch fl a s g)"
    and m: "m \<in> set (rmatch fl b (fst m1) (snd m1))"
    by auto
  from "10.IH"(1)[OF m1] "10.IH"(2)[OF m1 m] show ?case by simp
next
  case (12 fl a s g)
  from "12.prems" consider "m = (s, g)"
    | m1 where "m1 \<in> set (rmatch fl a s g)" "length (fst m1) < length s"
        "m \<in> set (rmatch fl (Star a) (fst m1) (snd m1))"
    by (subst (asm) rmatch.simps(12)) (auto split: if_splits)
  then show ?case
  proof cases
    case 1
    then show ?thesis by simp
  next
    case 2
    from "12.IH"(2)[OF 2] 2(2) show ?thesis by simp
  qed
qed (auto split: if_splits)

text \<open>
  A replacement template: literal text and the group references \<open>\1\<close>, \<open>\2\<close>, ... A group
  that took no part in the match expands to the empty string.
\<close>

datatype titem = T string | G nat

fun expand :: "titem list \<Rightarrow> groups \<Rightarrow> string" where
  "expand [] g = []"
| "expand (T w # t) g = w @ expand t g"
| "expand (G n # t) g = (case g n of None \<Rightarrow> [] | Some w \<Rightarrow> w) @ expand t g"

text \<open>
  The first match that starts at the head of \<open>s\<close>. Right after an empty match the engine
  must advance: at that position only a non-empty match counts.
\<close>

definition first_match :: "flag list \<Rightarrow> regex \<Rightarrow> bool \<Rightarrow> string \<Rightarrow> (string \<times> groups) option" where
  "first_match fl r adv s =
     List.find (\<lambda>m. if adv then length (fst m) < length s else True) (rmatch fl r s Map.empty)"

lemma first_match_length:
  assumes "first_match fl r adv s = Some m"
  shows "length (fst m) \<le> length s" and "adv \<Longrightarrow> length (fst m) < length s"
proof -
  from assms have "m \<in> set (rmatch fl r s Map.empty)"
    and "if adv then length (fst m) < length s else True"
    by (auto simp: first_match_def find_Some_iff)
  then show "length (fst m) \<le> length s" and "adv \<Longrightarrow> length (fst m) < length s"
    by (auto dest: rmatch_length)
qed

text \<open>
  The substitution loop of \<open>re.sub\<close>: search from the current position; text before the match
  is copied, the match is replaced by the expanded template, and the search resumes where
  the match ended.
\<close>

function re_sub_from :: "flag list \<Rightarrow> regex \<Rightarrow> titem list \<Rightarrow> bool \<Rightarrow> string \<Rightarrow> string" where
  "re_sub_from fl r t adv s =
     (case first_match fl r adv s of
        Some m \<Rightarrow> expand t (snd m) @ re_sub_from fl r t (length (fst m) = length s) (fst m)
      | None \<Rightarrow> (case s of [] \<Rightarrow> [] | c # cs \<Rightarrow> c # re_sub_from fl r t False cs))"
  by pat_completeness auto
termination
proof (relation "inv_image (less_than <*lex*> less_than)
                   (\<lambda>(fl, r, t, adv, s). (length s, if adv then 0 else (1::nat)))", goal_cases)
  case 1
  show ?case by auto
next
  case (2 fl r t adv s c cs)
  then show ?case by simp
next
  case (3 fl r t adv s m)
  from first_match_length[OF 3] show ?case by (cases adv) auto
qed

declare re_sub_from.simps [simp del]

text \<open>\<open>re.sub(pattern, repl, string, flags=...)\<close>.\<close>

definition re_sub :: "regex \<Rightarrow> titem list \<Rightarrow> string \<Rightarrow> flag list \<Rightarrow> string" where
  "re_sub pattern repl sql fl = re_sub_from fl pattern repl False sql"

text \<open>\<open>str.rstrip(chars)\<close> and \<open>str.rstrip()\<close>, which strips whitespace.\<close>

definition rstrip_chars :: "string \<Rightarrow> string \<Rightarrow> string" where
  "rstrip_chars chars s = rev (dropWhile (\<lambda>c. c \<in> set chars) (rev s))"

definition rstrip :: "string \<Rightarrow> string" where
  "rstrip s = rev (dropWhile is_space (rev s))"

section \<open>The rewrite rules\<close>

text \<open>
  One definition for each rule of \<open>src/parser/snowflake_parser.py\<close>, in the order of the
  source. Each pattern is a constant of its own; the regular expression of the source is
  given beside it.

  A string literal can neither start nor end with a single quote: where a pattern or a
  replacement does, the quote is written \<open>[CHR 0x27]\<close>.
\<close>

subsection \<open>\<open>parse_encoding\<close>\<close>

definition encode_to_comma :: regex where \<comment> \<open>\<^verbatim>\<open>[\s]encode .*,\<close>\<close>
  "encode_to_comma = seq [In [CatSpace], lit ''encode '', Star Any, lit '','']"

definition encode_to_eol :: regex where \<comment> \<open>\<^verbatim>\<open>[\s]encode .*\<close>\<close>
  "encode_to_eol = seq [In [CatSpace], lit ''encode '', Star Any]"

definition timestamp_without_tz :: regex where \<comment> \<open>\<^verbatim>\<open>[\s]timestamp without time zone\<close>\<close>
  "timestamp_without_tz = seq [In [CatSpace], lit ''timestamp without time zone'']"

definition parse_encoding :: "string \<Rightarrow> string" where
  "parse_encoding sql0 =
     (let pattern = encode_to_comma;
          replace = [T '',''];
          sql = re_sub pattern replace sql0 [IGNORECASE];
          pattern = encode_to_eol;
          replace = [];
          sql = re_sub pattern replace sql [IGNORECASE];
          pattern = timestamp_without_tz;
          replace = [T '' timestamp_ntz(9)''];
          sql = re_sub pattern replace sql [IGNORECASE]
      in sql)"

subsection \<open>\<open>parse_dist_sort\<close>\<close>

definition diststyle_named :: regex where \<comment> \<open>\<^verbatim>\<open>[\s]diststyle (all|even|auto|key)\<close>\<close>
  "diststyle_named =
     seq [In [CatSpace], lit ''diststyle '',
          Group 1 (Alt (lit ''all'') (Alt (lit ''even'') (Alt (lit ''auto'') (lit ''key''))))]"

definition distkey_to_paren :: regex where \<comment> \<open>\<^verbatim>\<open>distkey.*\)\<close>\<close>
  "distkey_to_paren = seq [lit ''distkey'', Star Any, lit '')'']"

definition diststyle_to_paren :: regex where \<comment> \<open>\<^verbatim>\<open>[\s]diststyle.*\)\<close>\<close>
  "diststyle_to_paren = seq [In [CatSpace], lit ''diststyle'', Star Any, lit '')'']"

definition sortkey_clause :: regex where
  \<comment> \<open>\<^verbatim>\<open>((compound|interleaved) )?sortkey\s*\([^\(]*\)\<close>\<close>
  "sortkey_clause =
     seq [Opt (Group 1 (seq [Group 2 (Alt (lit ''compound'') (lit ''interleaved'')), lit '' ''])),
          lit ''sortkey'', Star (In [CatSpace]), lit ''('',
          Star (NotIn [Ch CHR ''('']), lit '')'']"

definition distkey_word :: regex where \<comment> \<open>\<^verbatim>\<open>distkey\<close>\<close>
  "distkey_word = lit ''distkey''"

definition parse_dist_sort :: "string \<Rightarrow> string" where
  "parse_dist_sort sql0 =
     (let pattern = diststyle_named;
          replace = [];
          sql = re_sub pattern replace sql0 [IGNORECASE];
          pattern = distkey_to_paren;
          replace = [];
          sql = re_sub pattern replace sql [IGNORECASE, MULTILINE, DOTALL];
          pattern = diststyle_to_paren;
          replace = [];
          sql = re_sub pattern replace sql [IGNORECASE];
          pattern = sortkey_clause;
          replace = [];
          sql = re_sub pattern replace sql [IGNORECASE, MULTILINE, DOTALL];
          \<comment> \<open>sometimes distkey is defined in column attributes\<close>
          pattern = distkey_word;
          replace = [];
          sql = re_sub pattern replace sql [IGNORECASE, MULTILINE, DOTALL]
      in sql)"

subsection \<open>\<open>parse_bool\<close>\<close>

definition bool_column :: regex where \<comment> \<open>\<^verbatim>\<open> bool[\s]*([,\n])\<close>\<close>
  "bool_column = seq [lit '' bool'', Star (In [CatSpace]), Group 1 (In [Ch CHR '','', Ch CHR 0x0A])]"

definition bool_cast :: regex where \<comment> \<open>\<^verbatim>\<open>::[\s]*bool \<close>, with the space that ends it\<close>
  "bool_cast = seq [lit ''::'', Star (In [CatSpace]), lit ''bool '']"

definition parse_bool :: "string \<Rightarrow> string" where
  "parse_bool sql0 =
     (let pattern = bool_column;
          replace = [T '' boolean'', G 1];
          sql = re_sub pattern replace sql0 [IGNORECASE];
          pattern = bool_cast;
          replace = [T '':: boolean ''];
          sql = re_sub pattern replace sql [IGNORECASE]
      in sql)"

subsection \<open>\<open>parse_int\<close> and \<open>parse_varchar\<close>\<close>

definition int_patterns :: "regex list" where
  "int_patterns = [lit '' integer'', lit '' int2'', lit '' int4'', lit '' int8'',
                   lit '' bigint'', lit '' smallint'']"

definition parse_int :: "string \<Rightarrow> string" where
  "parse_int sql0 =
     foldl (\<lambda>sql pattern. re_sub pattern [T '' int''] sql [IGNORECASE]) sql0 int_patterns"

definition varchar_sized :: regex where \<comment> \<open>\<^verbatim>\<open> varchar\([0-9]+\)\<close>\<close>
  "varchar_sized = seq [lit '' varchar('', Plus (In [Rng CHR ''0'' CHR ''9'']), lit '')'']"

definition parse_varchar :: "string \<Rightarrow> string" where
  "parse_varchar sql0 =
     (let pattern = varchar_sized;
          replace = [T '' VARCHAR''];
          sql = re_sub pattern replace sql0 [IGNORECASE]
      in sql)"

subsection \<open>\<open>parse_trailing_whitespace\<close>\<close>

definition parse_trailing_whitespace :: "string \<Rightarrow> string" where
  "parse_trailing_whitespace sql = rstrip (rstrip_chars [CHR 0x0A, CHR 0x0D] sql)"

subsection \<open>Statements: \<open>parse_search_path\<close>, \<open>parse_analyze\<close>, \<open>parse_wlm_query_slot_count\<close>\<close>

definition search_path_stmt :: regex where \<comment> \<open>\<^verbatim>\<open>set search_path to \<close>, with the space that ends it\<close>
  "search_path_stmt = lit ''set search_path to ''"

definition parse_search_path :: "string \<Rightarrow> string" where
  "parse_search_path sql0 =
     (let pattern = search_path_stmt;
          replace = [T ''use schema ''];
          sql = re_sub pattern replace sql0 [IGNORECASE]
      in sql)"

definition analyze_stmt :: regex where \<comment> \<open>\<^verbatim>\<open>analyze [\.\w\s]*;\<close>\<close>
  "analyze_stmt = seq [lit ''analyze '', Star (In [Ch CHR ''.'', CatWord, CatSpace]), lit '';'']"

definition parse_analyze :: "string \<Rightarrow> string" where
  "parse_analyze sql0 =
     (let pattern = analyze_stmt;
          replace = [];
          sql = re_sub pattern replace sql0 [IGNORECASE]
      in sql)"

definition wlm_stmt :: regex where \<comment> \<open>\<^verbatim>\<open>set wlm_query_slot_count to [\d]+;\<close>\<close>
  "wlm_stmt = seq [lit ''set wlm_query_slot_count to '', Plus (In [CatDigit]), lit '';'']"

definition parse_wlm_query_slot_count :: "string \<Rightarrow> string" where
  "parse_wlm_query_slot_count sql0 =
     (let pattern = wlm_stmt;
          replace = [];
          sql = re_sub pattern replace sql0 [IGNORECASE]
      in sql)"

subsection \<open>DDL shapes: \<open>parse_ctas\<close>, \<open>parse_atrt\<close>\<close>

definition ctas_like :: regex where
  \<comment> \<open>\<^verbatim>\<open>create table (.*) \([\s]*like[\s]*(.*)[\s]*\)\<close>\<close>
  "ctas_like =
     seq [lit ''create table '', Group 1 (Star Any), lit '' ('',
          Star (In [CatSpace]), lit ''like'', Star (In [CatSpace]),
          Group 2 (Star Any), Star (In [CatSpace]), lit '')'']"

definition parse_ctas :: "string \<Rightarrow> string" where
  "parse_ctas sql0 =
     (let pattern = ctas_like;
          replace = [T ''create table '', G 1, T '' like '', G 2];
          sql = re_sub pattern replace sql0 [IGNORECASE, MULTILINE]
      in sql)"

definition atrt_stmt :: regex where \<comment> \<open>\<^verbatim>\<open>alter table (\w+)\.(\w+) rename to (\w+)\<close>\<close>
  "atrt_stmt =
     seq [lit ''alter table '', Group 1 (Plus (In [CatWord])), lit ''.'',
          Group 2 (Plus (In [CatWord])), lit '' rename to '',
          Group 3 (Plus (In [CatWord]))]"

definition parse_atrt :: "string \<Rightarrow> string" where
  "parse_atrt sql0 =
     (let pattern = atrt_stmt;
          replace = [T ''alter table '', G 1, T ''.'', G 2, T '' rename to '', G 1, T ''.'', G 3];
          sql = re_sub pattern replace sql0 [IGNORECASE, MULTILINE]
      in sql)"

subsection \<open>Time zones and date truncation\<close>

definition tz_utc :: regex where \<comment> \<open>\<^verbatim>\<open>convert_timezone\('utc'\<close>\<close>
  "tz_utc = lit (''convert_timezone('utc'' @ [CHR 0x27])"

definition parse_convert_timezone_utc :: "string \<Rightarrow> string" where
  "parse_convert_timezone_utc sql0 =
     (let pattern = tz_utc;
          replace = [T (''convert_timezone('UTC'' @ [CHR 0x27])];
          sql = re_sub pattern replace sql0 [IGNORECASE, MULTILINE]
      in sql)"

definition tz_pacific :: regex where \<comment> \<open>\<^verbatim>\<open>convert_timezone\(('pst'|'pdt')\<close>\<close>
  "tz_pacific =
     seq [lit ''convert_timezone('',
          Group 1 (Alt (lit ([CHR 0x27] @ ''pst'' @ [CHR 0x27]))
                       (lit ([CHR 0x27] @ ''pdt'' @ [CHR 0x27])))]"

definition parse_convert_timezone_pacific :: "string \<Rightarrow> string" where
  "parse_convert_timezone_pacific sql0 =
     (let pattern = tz_pacific;
          replace = [T (''convert_timezone('America/Los_Angeles'' @ [CHR 0x27])];
          sql = re_sub pattern replace sql0 [IGNORECASE, MULTILINE]
      in sql)"

definition date_trunc_weeks :: regex where \<comment> \<open>\<^verbatim>\<open>date_trunc\('weeks'\<close>\<close>
  "date_trunc_weeks = lit (''date_trunc('weeks'' @ [CHR 0x27])"

definition parse_convert_date_trunc_weeks :: "string \<Rightarrow> string" where
  "parse_convert_date_trunc_weeks sql0 =
     (let pattern = date_trunc_weeks;
          replace = [T (''date_trunc('week'' @ [CHR 0x27])];
          sql = re_sub pattern replace sql0 [IGNORECASE, MULTILINE]
      in sql)"

subsection \<open>\<open>parse_swap_methods\<close> and \<open>parse_tmp\<close>\<close>

text \<open>The dictionary \<open>swaps\<close>, in insertion order, which is the order \<open>items()\<close> yields.\<close>

definition swaps :: "(regex \<times> titem list) list" where
  "swaps =
    [(lit ''BOOL_OR'', [T ''BOOLOR_AGG'']),
     (lit ''BOOL_AND'', [T ''BOOLAND_AGG'']),
     (lit ('' ~ '' @ [CHR 0x27]), [T ('' regexp '' @ [CHR 0x27])]),
     (lit ''BTRIM'', [T ''TRIM'']),
     (lit ''CHAR_LENGTH'', [T ''LEN'']),
     (lit ''DATEPART'', [T ''DATE_PART'']),
     (lit ''DATE_DIFF'', [T ''DATEDIFF'']),
     (lit ''DATE_ADD('', [T ''DATEADD('']),
     (seq [Group 1 (Alt (lit ''DATEDIFF'') (lit ''DATE_DIFF'')),
           Group 2 (lit ''('weeks',''), Group 3 (Star Any)],
      [T ''DATEDIFF('week', '', G 3]),
     (lit ''FROM_UNIXTIME'', [T ''TO_TIMESTAMP'']),
     (seq [lit ''JSON_EXTRACT_PATH_TEXT('', Group 1 (Star (In [CatWord, Ch CHR ''.''])),
           lit ('', '' @ [CHR 0x27]), Group 2 (Star (In [CatWord])), lit ([CHR 0x27] @ '', true)'')],
      [G 1, T '':'', G 2]),
     (lit ''IS FALSE'', [T '' = FALSE'']),
     (lit ''IS TRUE'', [T '' = TRUE'']),
     (lit ''NVL'', [T ''COALESCE'']),
     (lit ''SYSDATE'', [T ''CURRENT_TIMESTAMP'']),
     (lit ''CEILING('', [T ''CEIL('']),
     (lit ''ISNULL('', [T ''NVL(''])]"

definition parse_swap_methods :: "string \<Rightarrow> string" where
  "parse_swap_methods sql0 =
     foldl (\<lambda>sql item. re_sub (fst item) (snd item) sql [IGNORECASE]) sql0 swaps"

definition user_sessions_view :: regex where \<comment> \<open>\<^verbatim>\<open>production\.user_sessions_view\<close>\<close>
  "user_sessions_view = lit ''production.user_sessions_view''"

definition rating_bigint :: regex where \<comment> \<open>\<^verbatim>\<open>rating__bigint\<close>\<close>
  "rating_bigint = lit ''rating__bigint''"

definition parse_tmp :: "string \<Rightarrow> string" where
  "parse_tmp sql0 =
     (let pattern = user_sessions_view;
          replace = [T ''production.user_sessions''];
          sql = re_sub pattern replace sql0 [IGNORECASE];
          pattern = rating_bigint;
          replace = [T ''rating''];
          sql = re_sub pattern replace sql [IGNORECASE]
      in sql)"

section \<open>The registry and the driver\<close>

text \<open>
  A rule called by the driver either returns text or raises an \<open>Exception\<close>; the driver's
  \<open>try\<close>/\<open>except Exception\<close> makes the second a branch. The rules of the module return on
  every text.
\<close>

datatype exn = Exn string

type_synonym parser = "string \<Rightarrow> exn + string"

definition returns :: "(string \<Rightarrow> string) \<Rightarrow> parser" where
  "returns f = (\<lambda>sql. Inr (f sql))"

definition parsers :: "parser list" where
  "parsers = map returns
    [parse_encoding,
     parse_dist_sort,
     parse_bool,
     parse_int,
     parse_varchar,
     parse_trailing_whitespace,
     parse_swap_methods,
     parse_search_path,
     parse_analyze,
     parse_ctas,
     parse_atrt,
     parse_tmp,
     parse_wlm_query_slot_count,
     parse_convert_timezone_utc,
     parse_convert_timezone_pacific,
     parse_convert_date_trunc_weeks]"

text \<open>The calls to the logger, in the order they are made.\<close>

datatype log_call = Error string | Exception exn | Debug string | Info string

text \<open>
  The loop of \<open>parse_redshift_to_snowflake\<close> over the registry: the text returned and the
  logger calls made from this point on.
\<close>

fun run_parsers :: "parser list \<Rightarrow> string \<Rightarrow> string \<times> log_call list" where
  "run_parsers [] sql = (sql, [Info (''Parsed snowflake sql: '' @ sql)])"
| "run_parsers (parser # rest) sql =
     (if sql = [] then (sql, [])
      else case parser sql of
        Inr sql' \<Rightarrow>
          (let (r, l) = run_parsers rest sql'
           in (r, Debug (''Partial parsed sql: '' @ sql') # l))
      | Inl e \<Rightarrow>
          (let (r, l) = run_parsers rest sql
           in (r, Error sql # Exception e # Debug (''Partial parsed sql: '' @ sql) # l)))"

text \<open>
  The driver over a registry \<open>ps\<close>. The argument is \<open>None\<close> for Python's \<open>None\<close>; \<open>not sql\<close>
  holds of \<open>None\<close> and of the empty string.
\<close>

definition parse_redshift_to_snowflake_with ::
  "parser list \<Rightarrow> string option \<Rightarrow> string option \<times> log_call list" where
  "parse_redshift_to_snowflake_with ps sql =
     (case sql of
        None \<Rightarrow> (None, [])
      | Some s \<Rightarrow>
          if s = [] then (Some s, [])
          else (let (r, l) = run_parsers ps s in (Some r, l)))"

definition parse_redshift_to_snowflake :: "string option \<Rightarrow> string option" where
  "parse_redshift_to_snowflake sql = fst (parse_redshift_to_snowflake_with parsers sql)"

section \<open>Notions used to state the properties\<close>

text \<open>
  \<open>starts_with fl w s\<close>: the text \<open>s\<close> begins with the word \<open>w\<close>, compared character by
  character as the engine compares a literal. \<open>matches_in fl r s\<close>: the pattern \<open>r\<close> matches at
  some position of \<open>s\<close>. \<open>after_last c s\<close>: the text that follows the last \<open>c\<close> of \<open>s\<close>.
  \<open>split_first fl w s\<close>: \<open>s\<close> cut in two where \<open>w\<close> first occurs.
\<close>

fun starts_with :: "flag list \<Rightarrow> string \<Rightarrow> string \<Rightarrow> bool" where
  "starts_with fl [] s = True"
| "starts_with fl (c # w) [] = False"
| "starts_with fl (c # w) (x # s) = (if lit_eq fl c x then starts_with fl w s else False)"

fun matches_in :: "flag list \<Rightarrow> regex \<Rightarrow> string \<Rightarrow> bool" where
  "matches_in fl r [] = (rmatch fl r [] Map.empty \<noteq> [])"
| "matches_in fl r (x # xs) =
     (if rmatch fl r (x # xs) Map.empty = [] then matches_in fl r xs else True)"

fun after_last :: "char \<Rightarrow> string \<Rightarrow> string option" where
  "after_last c [] = None"
| "after_last c (x # xs) =
     (case after_last c xs of Some r \<Rightarrow> Some r | None \<Rightarrow> if x = c then Some xs else None)"

fun split_first :: "flag list \<Rightarrow> string \<Rightarrow> string \<Rightarrow> (string \<times> string) option" where
  "split_first fl w [] = (if starts_with fl w [] then Some ([], []) else None)"
| "split_first fl w (x # xs) =
     (if starts_with fl w (x # xs) then Some ([], x # xs)
      else case split_first fl w xs of None \<Rightarrow> None | Some pr \<Rightarrow> Some (x # fst pr, snd pr))"






definition ends_in_space :: "string \<Rightarrow> bool" where
  "ends_in_space s = (case rev s of [] \<Rightarrow> False | c # _ \<Rightarrow> is_space c)"

text \<open>
  The registry once more, each rule with the patterns of its substitutions and their flags.
  \<open>parse_trailing_whitespace\<close> substitutes nothing.
\<close>

definition rule_patterns :: "((string \<Rightarrow> string) \<times> (regex \<times> flag list) list) list" where
  "rule_patterns =
    [(parse_encoding,
        [(encode_to_comma, [IGNORECASE]), (encode_to_eol, [IGNORECASE]),
         (timestamp_without_tz, [IGNORECASE])]),
     (parse_dist_sort,
        [(diststyle_named, [IGNORECASE]), (distkey_to_paren, [IGNORECASE, MULTILINE, DOTALL]),
         (diststyle_to_paren, [IGNORECASE]), (sortkey_clause, [IGNORECASE, MULTILINE, DOTALL]),
         (distkey_word, [IGNORECASE, MULTILINE, DOTALL])]),
     (parse_bool, [(bool_column, [IGNORECASE]), (bool_cast, [IGNORECASE])]),
     (parse_int, map (\<lambda>pattern. (pattern, [IGNORECASE])) int_patterns),
     (parse_varchar, [(varchar_sized, [IGNORECASE])]),
     (parse_trailing_whitespace, []),
     (parse_swap_methods, map (\<lambda>item. (fst item, [IGNORECASE])) swaps),
     (parse_search_path, [(search_path_stmt, [IGNORECASE])]),
     (parse_analyze, [(analyze_stmt, [IGNORECASE])]),
     (parse_ctas, [(ctas_like, [IGNORECASE, MULTILINE])]),
     (parse_atrt, [(atrt_stmt, [IGNORECASE, MULTILINE])]),
     (parse_tmp, [(user_sessions_view, [IGNORECASE]), (rating_bigint, [IGNORECASE])]),
     (parse_wlm_query_slot_count, [(wlm_stmt, [IGNORECASE])]),
     (parse_convert_timezone_utc, [(tz_utc, [IGNORECASE, MULTILINE])]),
     (parse_convert_timezone_pacific, [(tz_pacific, [IGNORECASE, MULTILINE])]),
     (parse_convert_date_trunc_weeks, [(date_trunc_weeks, [IGNORECASE, MULTILINE])])]"

text \<open>\<open>untouched ps s\<close>: none of the patterns \<open>ps\<close> matches anywhere in \<open>s\<close>.\<close>

definition untouched :: "(regex \<times> flag list) list \<Rightarrow> string \<Rightarrow> bool" where
  "untouched ps s = list_all (\<lambda>p. \<not> matches_in (snd p) (fst p) s) ps"

section \<open>Evaluating the rules on concrete text\<close>

text \<open>
  The character predicates on a character given by its bits, and the substitution loop
  unfolded on an empty and on a non-empty text: with these the simplifier evaluates a rule
  on a concrete text without unfolding anything on a text it does not know yet.
\<close>

lemma lower_Char:
  "lower (Char b0 b1 b2 b3 b4 b5 b6 b7) =
     (if \<not> b7 \<and> b6 \<and> \<not> b5 \<and> (b0 \<or> b1 \<or> b2 \<or> b3 \<or> b4) \<and> \<not> (b4 \<and> b3 \<and> (b2 \<or> (b1 \<and> b0)))
      then Char b0 b1 b2 b3 b4 True b6 b7 else Char b0 b1 b2 b3 b4 b5 b6 b7)"
  by (cases b0; cases b1; cases b2; cases b3; cases b4; cases b5; cases b6; cases b7;
      simp add: lower_def char_of_eq_iff)

lemma is_space_Char:
  "is_space (Char b0 b1 b2 b3 b4 b5 b6 b7) =
     ((\<not> b7 \<and> \<not> b6 \<and> \<not> b5 \<and> \<not> b4 \<and> b3 \<and> ((\<not> b2 \<and> (b1 \<or> b0)) \<or> (b2 \<and> \<not> b1)))
      \<or> (\<not> b7 \<and> \<not> b6 \<and> \<not> b5 \<and> b4 \<and> b3 \<and> b2)
      \<or> (\<not> b6 \<and> b5 \<and> \<not> b4 \<and> \<not> b3 \<and> \<not> b2 \<and> \<not> b1 \<and> \<not> b0)
      \<or> (b7 \<and> \<not> b6 \<and> \<not> b5 \<and> \<not> b4 \<and> \<not> b3 \<and> b2 \<and> \<not> b1 \<and> b0))"
  by (cases b0; cases b1; cases b2; cases b3; cases b4; cases b5; cases b6; cases b7;
      simp add: is_space_def)

lemma is_digit_Char:
  "is_digit (Char b0 b1 b2 b3 b4 b5 b6 b7) =
     (\<not> b7 \<and> \<not> b6 \<and> b5 \<and> b4 \<and> (\<not> b3 \<or> (\<not> b2 \<and> \<not> b1)))"
  by (cases b0; cases b1; cases b2; cases b3; cases b4; cases b5; cases b6; cases b7;
      simp add: is_digit_def)

lemma is_word_Char:
  "is_word (Char b0 b1 b2 b3 b4 b5 b6 b7) =
     ((\<not> b7 \<and> b6 \<and> (b0 \<or> b1 \<or> b2 \<or> b3 \<or> b4) \<and> \<not> (b4 \<and> b3 \<and> (b2 \<or> (b1 \<and> b0))))
      \<or> (\<not> b7 \<and> \<not> b6 \<and> b5 \<and> b4 \<and> (\<not> b3 \<or> (\<not> b2 \<and> \<not> b1)))
      \<or> (\<not> b7 \<and> b6 \<and> \<not> b5 \<and> b4 \<and> b3 \<and> b2 \<and> b1 \<and> b0)
      \<or> (b7 \<and> b6 \<and> \<not> (b4 \<and> \<not> b3 \<and> b2 \<and> b1 \<and> b0))
      \<or> (b7 \<and> \<not> b6 \<and> b5 \<and>
           ((\<not> b4 \<and> b3 \<and> \<not> b2 \<and> b1 \<and> \<not> b0)
            \<or> (b4 \<and> \<not> b3 \<and> \<not> b2 \<and> b1)
            \<or> (b4 \<and> \<not> b3 \<and> b2 \<and> \<not> b1 \<and> b0)
            \<or> (b4 \<and> b3 \<and> \<not> b2 \<and> (b1 \<noteq> b0))
            \<or> (b4 \<and> b3 \<and> b2 \<and> \<not> (b1 \<and> b0)))))"
  by (cases b0; cases b1; cases b2; cases b3; cases b4; cases b5; cases b6; cases b7;
      simp add: is_word_def)

lemma item_ok_digit_range: "item_ok (Rng CHR ''0'' CHR ''9'') x = is_digit x"
  by (simp add: is_digit_def Let_def)

lemma re_sub_from_Nil:
  "re_sub_from fl r t adv [] =
     (case first_match fl r adv [] of
        Some m \<Rightarrow> expand t (snd m) @ re_sub_from fl r t (length (fst m) = 0) (fst m)
      | None \<Rightarrow> [])"
  by (subst re_sub_from.simps) (simp split: option.split)

lemma re_sub_from_Cons:
  "re_sub_from fl r t adv (x # xs) =
     (case first_match fl r adv (x # xs) of
        Some m \<Rightarrow> expand t (snd m) @ re_sub_from fl r t (length (fst m) = Suc (length xs)) (fst m)
      | None \<Rightarrow> x # re_sub_from fl r t False xs)"
  by (subst re_sub_from.simps) (simp split: option.split)

lemmas rmatch_Nil = rmatch.simps(9-13)[where s = "[]"]

lemmas rmatch_Cons = rmatch.simps(9-13)[where s = "x # xs"] for x xs

lemmas pattern_defs =
  encode_to_comma_def encode_to_eol_def timestamp_without_tz_def diststyle_named_def
  distkey_to_paren_def diststyle_to_paren_def sortkey_clause_def distkey_word_def
  bool_column_def bool_cast_def int_patterns_def varchar_sized_def search_path_stmt_def
  analyze_stmt_def wlm_stmt_def ctas_like_def atrt_stmt_def tz_utc_def tz_pacific_def
  date_trunc_weeks_def swaps_def user_sessions_view_def rating_bigint_def

lemmas rule_defs =
  parse_encoding_def parse_dist_sort_def parse_bool_def parse_int_def parse_varchar_def
  parse_trailing_whitespace_def parse_swap_methods_def parse_search_path_def parse_analyze_def
  parse_ctas_def parse_atrt_def parse_tmp_def parse_wlm_query_slot_count_def
  parse_convert_timezone_utc_def parse_convert_timezone_pacific_def
  parse_convert_date_trunc_weeks_def pattern_defs rstrip_def rstrip_chars_def

lemmas engine_rules =
  re_sub_def re_sub_from_Nil re_sub_from_Cons first_match_def rmatch.simps(1-8) rmatch_Nil
  rmatch_Cons seq_def lit_def Plus_def Opt_def lit_eq_def any_ok_def lower_Char is_space_Char
  is_digit_Char is_word_Char item_ok_digit_range item_ok.simps(1,3,4,5) in_set.simps
  expand.simps

lemmas basic_rules =
  Let_def list.case option.case prod.case sum.case fst_conv snd_conv if_True if_False simp_thms
  foldr.simps foldl.simps list.map concat.simps append.simps find.simps o_apply id_apply
  char.inject list.inject list.distinct list.size set_simps insert_iff empty_iff flag.distinct
  option.inject option.distinct fun_upd_apply nat.inject nat.distinct
  add_Suc_right add_0_right add_0 add_Suc Suc_less_eq zero_less_Suc not_less0
  diff_Suc_Suc diff_zero minus_nat.diff_0
  take_Suc_Cons take_0 take.simps(1) rev.simps dropWhile.simps titem.case
  de_Morgan_conj de_Morgan_disj One_nat_def numeral_eq_Suc pred_numeral_simps
  BitM.simps

lemmas driver_rules =
  parse_redshift_to_snowflake_def parse_redshift_to_snowflake_with_def run_parsers.simps
  parsers_def returns_def

lemmas eval_rules = driver_rules rule_defs engine_rules basic_rules

lemmas eval_congs =
  if_weak_cong option.case_cong_weak list.case_cong_weak sum.case_cong_weak

section \<open>Facts about the pattern engine\<close>

subsection \<open>Literal words\<close>

declare rmatch.simps(10) [simp del]

lemma lit_Nil: "lit [] = Eps"
  by (simp add: lit_def)

lemma lit_Cons: "lit (c # w) = Seq (Lit c) (lit w)"
  by (simp add: lit_def)

lemma seq_Nil: "seq [] = Eps"
  by (simp add: seq_def)

lemma seq_Cons: "seq (r # rs) = Seq r (seq rs)"
  by (simp add: seq_def)

lemma rmatch_lit:
  "rmatch fl (lit w) s g = (if starts_with fl w s then [(drop (length w) s, g)] else [])"
proof (induction w arbitrary: s)
  case Nil
  show ?case by (simp add: lit_Nil)
next
  case (Cons c w)
  show ?case by (cases s) (simp_all add: lit_Cons rmatch.simps(10) Cons.IH)
qed

lemma rmatch_lit_then:
  "rmatch fl (Seq (lit w) r) s g =
     (if starts_with fl w s then rmatch fl r (drop (length w) s) g else [])"
  by (simp add: rmatch.simps(10) rmatch_lit)

subsection \<open>Greedy repetition and text without a match\<close>

lemma star_stop: "rmatch fl a s g = [] \<Longrightarrow> rmatch fl (Star a) s g = [(s, g)]"
  by (subst rmatch.simps(12)) simp

lemma star_step:
  "rmatch fl a (x # xs) g = [(xs, g)] \<Longrightarrow>
   rmatch fl (Star a) (x # xs) g = rmatch fl (Star a) xs g @ [(x # xs, g)]"
  by (subst rmatch.simps(12)) simp

lemma no_match_unchanged: "\<not> matches_in fl r s \<Longrightarrow> re_sub_from fl r t adv s = s"
proof (induction s arbitrary: adv)
  case Nil
  then show ?case by (simp add: re_sub_from_Nil first_match_def)
next
  case (Cons x xs)
  then have "rmatch fl r (x # xs) Map.empty = []" and "\<not> matches_in fl r xs"
    by (auto split: if_splits)
  then show ?case by (simp add: re_sub_from_Cons first_match_def Cons.IH)
qed

subsection \<open>The span from a keyword to the last closing parenthesis\<close>

lemma find_append:
  "find P (xs @ ys) = (case find P xs of None \<Rightarrow> find P ys | Some x \<Rightarrow> Some x)"
  by (induction xs) simp_all

lemma lit_eq_rparen: "IGNORECASE \<in> set fl \<Longrightarrow> lit_eq fl CHR '')'' x = (x = CHR '')'')"
  by (cases x) (auto simp: lit_eq_def lower_Char split: if_splits)

lemma find_True_None: "(find (\<lambda>m. True) xs = None) = (xs = [])"
  by (cases xs) simp_all

lemma any_star_then_Nil: "rmatch fl (Seq (Star Any) b) [] g = rmatch fl b [] g"
  by (simp add: rmatch.simps(10) star_stop)

lemma any_star_then_Cons:
  "DOTALL \<in> set fl \<Longrightarrow>
   rmatch fl (Seq (Star Any) b) (x # xs) g = rmatch fl (Seq (Star Any) b) xs g @ rmatch fl b (x # xs) g"
  by (simp add: rmatch.simps(10) star_step any_ok_def)

lemma first_after_last_rparen:
  assumes "DOTALL \<in> set fl" and "IGNORECASE \<in> set fl"
  shows "find (\<lambda>m. True) (rmatch fl (Seq (Star Any) (Seq (lit '')'') Eps)) s g)
         = map_option (\<lambda>u. (u, g)) (after_last CHR '')'' s)"
proof (induction s)
  case Nil
  show ?case by (simp add: any_star_then_Nil rmatch_lit_then)
next
  case (Cons x xs)
  have "rmatch fl (Seq (lit '')'') Eps) (x # xs) g = (if x = CHR '')'' then [(xs, g)] else [])"
    using assms(2) by (simp add: rmatch_lit_then lit_eq_rparen)
  then show ?case
    using Cons.IH
    by (simp add: any_star_then_Cons[OF assms(1)] find_append split: option.split)
qed

lemma after_last_None: "(after_last c s = None) = (c \<notin> set s)"
  by (induction s) (auto split: option.splits)

lemma after_last_Some: "after_last c s = Some r \<Longrightarrow> \<exists>m. s = m @ c # r \<and> c \<notin> set r"
proof (induction s arbitrary: r)
  case Nil
  then show ?case by simp
next
  case (Cons x xs)
  show ?case
  proof (cases "after_last c xs")
    case None
    with Cons.prems have "x = c" "r = xs" by (auto split: if_splits)
    with None show ?thesis by (auto simp: after_last_None)
  next
    case (Some r')
    with Cons.prems have "r' = r" by simp
    with Cons.IH Some obtain m where "xs = m @ c # r" "c \<notin> set r" by blast
    then have "x # xs = (x # m) @ c # r" by simp
    with \<open>c \<notin> set r\<close> show ?thesis by blast
  qed
qed

lemma split_first_Some:
  "split_first fl w s = Some (pre, hit) \<Longrightarrow> s = pre @ hit \<and> starts_with fl w hit"
proof (induction s arbitrary: pre)
  case Nil
  then show ?case by (auto split: if_splits)
next
  case (Cons x xs)
  then show ?case by (auto split: if_splits option.splits)
qed

lemma split_first_earliest:
  "split_first fl w s = Some (pre, hit) \<Longrightarrow> k < length pre \<Longrightarrow> \<not> starts_with fl w (drop k s)"
proof (induction s arbitrary: pre k)
  case Nil
  then show ?case by (auto split: if_splits)
next
  case (Cons x xs)
  show ?case
  proof (cases "starts_with fl w (x # xs)")
    case True
    with Cons.prems show ?thesis by simp
  next
    case False
    with Cons.prems(1) obtain p where p: "split_first fl w xs = Some (p, hit)" and pre: "pre = x # p"
      by (auto split: option.splits)
    show ?thesis
    proof (cases k)
      case 0
      with False show ?thesis by simp
    next
      case (Suc k')
      with Cons.prems(2) pre have "k' < length p" by simp
      from Cons.IH[OF p this] Suc show ?thesis by simp
    qed
  qed
qed

lemma sub_up_to_first:
  assumes "\<And>u g. \<not> starts_with fl w u \<Longrightarrow> rmatch fl r u g = []"
  shows "split_first fl w s = Some (pre, hit) \<Longrightarrow>
         re_sub_from fl r t False s = pre @ re_sub_from fl r t False hit"
proof (induction s arbitrary: pre)
  case Nil
  then show ?case by (auto split: if_splits)
next
  case (Cons x xs)
  show ?case
  proof (cases "starts_with fl w (x # xs)")
    case True
    with Cons.prems show ?thesis by simp
  next
    case False
    with Cons.prems obtain p where p: "split_first fl w xs = Some (p, hit)" and pre: "pre = x # p"
      by (auto split: option.splits)
    from False have "first_match fl r False (x # xs) = None"
      by (simp add: first_match_def assms)
    then show ?thesis
      by (simp add: re_sub_from_Cons Cons.IH[OF p] pre)
  qed
qed

lemma no_rparen_no_match:
  assumes "CHR '')'' \<notin> set s"
  shows "\<not> matches_in [IGNORECASE, MULTILINE, DOTALL] distkey_to_paren s"
  using assms
proof (induction s)
  case Nil
  show ?case by (simp add: distkey_to_paren_def seq_Cons rmatch_lit_then)
next
  case (Cons x xs)
  have "after_last CHR '')'' (drop (length ''distkey'') (x # xs)) = None"
    using Cons.prems by (auto simp: after_last_None dest: in_set_dropD)
  then have "find (\<lambda>m. True) (rmatch [IGNORECASE, MULTILINE, DOTALL] (Seq (Star Any) (Seq (lit '')'') Eps))
               (drop (length ''distkey'') (x # xs)) Map.empty) = None"
    by (simp add: first_after_last_rparen)
  then have "rmatch [IGNORECASE, MULTILINE, DOTALL] (Seq (Star Any) (Seq (lit '')'') Eps))
               (drop (length ''distkey'') (x # xs)) Map.empty = []"
    by (simp only: find_True_None)
  then have "rmatch [IGNORECASE, MULTILINE, DOTALL] distkey_to_paren (x # xs) Map.empty = []"
    by (simp add: distkey_to_paren_def seq_Cons seq_Nil rmatch_lit_then)
  with Cons show ?case by simp
qed

subsection \<open>A run of characters of one class\<close>








subsection \<open>The rename statement\<close>







subsection \<open>What a match consumes\<close>



subsection \<open>The slot-count statement\<close>



subsection \<open>Stripping whitespace\<close>

lemma rstrip_no_trailing_space: "\<not> ends_in_space (rstrip s)"
proof -
  have "\<And>xs. \<not> (case dropWhile is_space xs of [] \<Rightarrow> False | c # _ \<Rightarrow> is_space c)"
  proof -
    fix xs :: string
    show "\<not> (case dropWhile is_space xs of [] \<Rightarrow> False | c # _ \<Rightarrow> is_space c)"
      by (induction xs) simp_all
  qed
  then show ?thesis by (simp add: ends_in_space_def rstrip_def)
qed

lemma run_single: "fst (run_parsers [returns f] s) = (if s = [] then [] else f s)"
  by (simp add: returns_def)

subsection \<open>Rules whose patterns match nowhere\<close>

lemma sub_unchanged: "\<not> matches_in fl r s \<Longrightarrow> re_sub r t s fl = s"
  by (simp add: re_sub_def no_match_unchanged)

lemma rstrip_fixed: "\<not> ends_in_space u \<Longrightarrow> rstrip u = u"
  by (cases "rev u") (simp_all add: ends_in_space_def rstrip_def rev_swap[symmetric])

lemma rstrip_chars_fixed:
  assumes "\<not> ends_in_space u" and "list_all is_space chars"
  shows "rstrip_chars chars u = u"
proof (cases "rev u")
  case Nil
  then show ?thesis by (simp add: rstrip_chars_def)
next
  case (Cons c cs)
  with assms(1) have "\<not> is_space c" by (simp add: ends_in_space_def)
  with assms(2) have "c \<notin> set chars" by (auto simp: list_all_iff)
  with Cons show ?thesis by (simp add: rstrip_chars_def rev_swap[symmetric])
qed

lemma trailing_whitespace_idempotent:
  "parse_trailing_whitespace (parse_trailing_whitespace s) = parse_trailing_whitespace s"
proof -
  have "\<not> ends_in_space (parse_trailing_whitespace s)"
    by (simp add: parse_trailing_whitespace_def rstrip_no_trailing_space)
  moreover have "list_all is_space [CHR 0x0A, CHR 0x0D]"
    by (simp add: is_space_Char)
  ultimately show ?thesis
    by (subst parse_trailing_whitespace_def) (simp add: rstrip_chars_fixed rstrip_fixed)
qed

lemma encoding_stable:
  "untouched [(encode_to_comma, [IGNORECASE]), (encode_to_eol, [IGNORECASE]),
       (timestamp_without_tz, [IGNORECASE])] t
   \<Longrightarrow> parse_encoding t = t"
  by (simp add: untouched_def parse_encoding_def sub_unchanged)

lemma dist_sort_stable:
  "untouched [(diststyle_named, [IGNORECASE]), (distkey_to_paren, [IGNORECASE, MULTILINE, DOTALL]),
       (diststyle_to_paren, [IGNORECASE]), (sortkey_clause, [IGNORECASE, MULTILINE, DOTALL]),
       (distkey_word, [IGNORECASE, MULTILINE, DOTALL])] t
   \<Longrightarrow> parse_dist_sort t = t"
  by (simp add: untouched_def parse_dist_sort_def sub_unchanged)

lemma bool_stable:
  "untouched [(bool_column, [IGNORECASE]), (bool_cast, [IGNORECASE])] t
   \<Longrightarrow> parse_bool t = t"
  by (simp add: untouched_def parse_bool_def sub_unchanged)

lemma int_stable:
  "untouched (map (\<lambda>pattern. (pattern, [IGNORECASE])) int_patterns) t
   \<Longrightarrow> parse_int t = t"
  by (simp add: untouched_def parse_int_def int_patterns_def sub_unchanged)

lemma varchar_stable:
  "untouched [(varchar_sized, [IGNORECASE])] t
   \<Longrightarrow> parse_varchar t = t"
  by (simp add: untouched_def parse_varchar_def sub_unchanged)

lemma swap_methods_stable:
  "untouched (map (\<lambda>item. (fst item, [IGNORECASE])) swaps) t
   \<Longrightarrow> parse_swap_methods t = t"
  by (simp add: untouched_def parse_swap_methods_def swaps_def sub_unchanged)

lemma search_path_stable:
  "untouched [(search_path_stmt, [IGNORECASE])] t
   \<Longrightarrow> parse_search_path t = t"
  by (simp add: untouched_def parse_search_path_def sub_unchanged)

lemma analyze_stable:
  "untouched [(analyze_stmt, [IGNORECASE])] t
   \<Longrightarrow> parse_analyze t = t"
  by (simp add: untouched_def parse_analyze_def sub_unchanged)

lemma ctas_stable:
  "untouched [(ctas_like, [IGNORECASE, MULTILINE])] t
   \<Longrightarrow> parse_ctas t = t"
  by (simp add: untouched_def parse_ctas_def sub_unchanged)

lemma atrt_stable:
  "untouched [(atrt_stmt, [IGNORECASE, MULTILINE])] t
   \<Longrightarrow> parse_atrt t = t"
  by (simp add: untouched_def parse_atrt_def sub_unchanged)

lemma tmp_stable:
  "untouched [(user_sessions_view, [IGNORECASE]), (rating_bigint, [IGNORECASE])] t
   \<Longrightarrow> parse_tmp t = t"
  by (simp add: untouched_def parse_tmp_def sub_unchanged)

lemma wlm_query_slot_count_stable:
  "untouched [(wlm_stmt, [IGNORECASE])] t
   \<Longrightarrow> parse_wlm_query_slot_count t = t"
  by (simp add: untouched_def parse_wlm_query_slot_count_def sub_unchanged)

lemma convert_timezone_utc_stable:
  "untouched [(tz_utc, [IGNORECASE, MULTILINE])] t
   \<Longrightarrow> parse_convert_timezone_utc t = t"
  by (simp add: untouched_def parse_convert_timezone_utc_def sub_unchanged)

lemma convert_timezone_pacific_stable:
  "untouched [(tz_pacific, [IGNORECASE, MULTILINE])] t
   \<Longrightarrow> parse_convert_timezone_pacific t = t"
  by (simp add: untouched_def parse_convert_timezone_pacific_def sub_unchanged)

lemma convert_date_trunc_weeks_stable:
  "untouched [(date_trunc_weeks, [IGNORECASE, MULTILINE])] t
   \<Longrightarrow> parse_convert_date_trunc_weeks t = t"
  by (simp add: untouched_def parse_convert_date_trunc_weeks_def sub_unchanged)

lemmas stable_rules =
  encoding_stable dist_sort_stable bool_stable int_stable
  varchar_stable swap_methods_stable search_path_stable analyze_stable
  ctas_stable atrt_stable tmp_stable wlm_query_slot_count_stable
  convert_timezone_utc_stable convert_timezone_pacific_stable convert_date_trunc_weeks_stable

lemma second_application:
  assumes "(f, ps) \<in> set rule_patterns" and "untouched ps (f s)"
  shows "f (f s) = f s"
  using assms unfolding rule_patterns_def set_simps insert_iff empty_iff prod.inject
  by (elim disjE conjE) (simp_all add: stable_rules trailing_whitespace_idempotent)

section \<open>The driver\<close>

lemma run_parsers_empty [simp]: "fst (run_parsers ps []) = []"
  by (cases ps) simp_all

lemma run_parsers_append:
  "fst (run_parsers (ps1 @ ps2) sql) = fst (run_parsers ps2 (fst (run_parsers ps1 sql)))"
proof (induction ps1 arbitrary: sql)
  case Nil
  show ?case by simp
next
  case (Cons p ps1)
  show ?case
  proof (cases "sql = []")
    case True
    then show ?thesis by simp
  next
    case False
    then show ?thesis
      by (cases "p sql") (simp_all add: Cons.IH case_prod_beta)
  qed
qed

lemma parse_redshift_to_snowflake_with_Some:
  "fst (parse_redshift_to_snowflake_with ps (Some sql)) = Some (fst (run_parsers ps sql))"
  by (simp add: parse_redshift_to_snowflake_with_def case_prod_beta)

text \<open>
  C1. Per-rule failure isolation. Take any registry \<open>pre @ p # post\<close> and any text \<open>sql\<close>,
  and let \<open>cur\<close> be the text that reaches the rule \<open>p\<close>. If \<open>p\<close> raises on \<open>cur\<close>, the driver
  catches the exception, logs the text and the exception, and runs the remaining rules \<open>post\<close>
  on the unchanged text \<open>cur\<close>; the call returns the text these rules produce. The driver
  returns a text for every registry and every present input, whichever rules raise.
\<close>

theorem rule_failure_is_isolated:
  assumes "fst (run_parsers pre sql) = cur" and "cur \<noteq> []" and "p cur = Inl e"
  shows "run_parsers (p # post) cur =
           (fst (run_parsers post cur),
            Error cur # Exception e # Debug (''Partial parsed sql: '' @ cur)
              # snd (run_parsers post cur))
         \<and> fst (parse_redshift_to_snowflake_with (pre @ p # post) (Some sql))
             = Some (fst (run_parsers post cur))
         \<and> (\<exists>r. fst (parse_redshift_to_snowflake_with ps (Some sql')) = Some r)"
proof (intro conjI)
  show step: "run_parsers (p # post) cur =
           (fst (run_parsers post cur),
            Error cur # Exception e # Debug (''Partial parsed sql: '' @ cur)
              # snd (run_parsers post cur))"
    using assms(2,3) by (simp add: case_prod_beta)
  have "fst (run_parsers (pre @ p # post) sql) = fst (run_parsers (p # post) cur)"
    using assms(1) by (simp add: run_parsers_append)
  then show "fst (parse_redshift_to_snowflake_with (pre @ p # post) (Some sql))
             = Some (fst (run_parsers post cur))"
    by (simp add: parse_redshift_to_snowflake_with_Some step del: run_parsers.simps)
  show "\<exists>r. fst (parse_redshift_to_snowflake_with ps (Some sql')) = Some r"
    by (simp add: parse_redshift_to_snowflake_with_Some)
qed

lemma scenario_trailing_blank_lines:
  "fst (run_parsers parsers ''create table t (a int) \<newline>\<newline>  '') = ''create table t (a int)''"
  by (simp only: eval_rules cong: eval_congs)

theorem rule_failure_is_isolated_witness:
  "fst (run_parsers [] ''create table t (a int) \<newline>\<newline>  '') = ''create table t (a int) \<newline>\<newline>  ''
   \<and> ''create table t (a int) \<newline>\<newline>  '' \<noteq> []
   \<and> (\<lambda>sql. Inl (Exn ''unbalanced quotes'')) ''create table t (a int) \<newline>\<newline>  ''
       = (Inl (Exn ''unbalanced quotes'') :: exn + string)
   \<and> fst (parse_redshift_to_snowflake_with ((\<lambda>sql. Inl (Exn ''unbalanced quotes'')) # parsers)
              (Some ''create table t (a int) \<newline>\<newline>  ''))
       = Some ''create table t (a int)''"
proof -
  have h1: "fst (run_parsers [] ''create table t (a int) \<newline>\<newline>  '')
              = ''create table t (a int) \<newline>\<newline>  ''"
    by simp
  have h2: "''create table t (a int) \<newline>\<newline>  '' \<noteq> []"
    by simp
  have h3: "(\<lambda>sql. Inl (Exn ''unbalanced quotes'')) ''create table t (a int) \<newline>\<newline>  ''
              = (Inl (Exn ''unbalanced quotes'') :: exn + string)"
    by simp
  from rule_failure_is_isolated [OF h1 h2 h3, of parsers] h1 show ?thesis
    by (simp add: scenario_trailing_blank_lines del: run_parsers.simps)
qed

text \<open>
  C2. Empty text is terminal. For an absent input (\<open>None\<close>) and for the empty string the
  driver returns the input at once: no rule of the registry is called and no logger call is
  made, whatever the registry holds. Whenever a rule \<open>p\<close> returns the empty text, the
  rules after it are skipped and the empty text is returned.
\<close>

theorem empty_text_is_terminal:
  "parse_redshift_to_snowflake_with ps None = (None, [])
   \<and> parse_redshift_to_snowflake_with ps (Some []) = (Some [], [])
   \<and> parse_redshift_to_snowflake None = None
   \<and> parse_redshift_to_snowflake (Some []) = Some []
   \<and> (fst (run_parsers pre sql) = cur \<and> cur \<noteq> [] \<and> p cur = Inr [] \<longrightarrow>
        run_parsers (p # post) cur =
          ([], Debug ''Partial parsed sql: ''
               # (if post = [] then [Info ''Parsed snowflake sql: ''] else []))
        \<and> fst (parse_redshift_to_snowflake_with (pre @ p # post) (Some sql)) = Some [])"
proof (intro conjI impI)
  show "parse_redshift_to_snowflake_with ps None = (None, [])"
    by (simp add: parse_redshift_to_snowflake_with_def)
  show "parse_redshift_to_snowflake_with ps (Some []) = (Some [], [])"
    by (simp add: parse_redshift_to_snowflake_with_def)
  show "parse_redshift_to_snowflake None = None"
    by (simp add: parse_redshift_to_snowflake_def parse_redshift_to_snowflake_with_def)
  show "parse_redshift_to_snowflake (Some []) = Some []"
    by (simp add: parse_redshift_to_snowflake_def parse_redshift_to_snowflake_with_def)
next
  assume a: "fst (run_parsers pre sql) = cur \<and> cur \<noteq> [] \<and> p cur = Inr []"
  show step: "run_parsers (p # post) cur =
          ([], Debug ''Partial parsed sql: ''
               # (if post = [] then [Info ''Parsed snowflake sql: ''] else []))"
    using a by (cases post) simp_all
  have "fst (run_parsers (pre @ p # post) sql) = fst (run_parsers (p # post) cur)"
    using a by (simp add: run_parsers_append)
  then show "fst (parse_redshift_to_snowflake_with (pre @ p # post) (Some sql)) = Some []"
    by (simp add: parse_redshift_to_snowflake_with_Some step del: run_parsers.simps)
qed

lemma wlm_statement_alone:
  "parse_wlm_query_slot_count ''set wlm_query_slot_count to 3;'' = []"
  by (simp only: eval_rules cong: eval_congs)

theorem empty_text_is_terminal_witness:
  "fst (run_parsers [] ''set wlm_query_slot_count to 3;'') = ''set wlm_query_slot_count to 3;''
   \<and> ''set wlm_query_slot_count to 3;'' \<noteq> []
   \<and> returns parse_wlm_query_slot_count ''set wlm_query_slot_count to 3;'' = Inr []
   \<and> run_parsers (returns parse_wlm_query_slot_count # [returns (\<lambda>sql. ''select 1'')])
        ''set wlm_query_slot_count to 3;''
       = ([], [Debug ''Partial parsed sql: ''])
   \<and> fst (parse_redshift_to_snowflake_with
             ([] @ returns parse_wlm_query_slot_count # [returns (\<lambda>sql. ''select 1'')])
             (Some ''set wlm_query_slot_count to 3;'')) = Some []"
  using empty_text_is_terminal [of parsers "[]" "''set wlm_query_slot_count to 3;''"
      "''set wlm_query_slot_count to 3;''" "returns parse_wlm_query_slot_count"
      "[returns (\<lambda>sql. ''select 1'')]"]
  by (simp add: returns_def wlm_statement_alone del: run_parsers.simps(2))

section \<open>The storage-hint rule\<close>

text \<open>
  C10. Greedy deletion span of \<open>distkey.*\)\<close>. Let \<open>pre\<close> be the text before the first
  \<open>distkey\<close> (in any letter case) of \<open>sql\<close> and \<open>hit\<close> the text from that occurrence on. If a
  closing parenthesis occurs anywhere after the keyword, and \<open>post\<close> is the text after the
  last closing parenthesis, then the substitution of \<open>parse_dist_sort\<close> with the pattern
  \<open>distkey.*\)\<close> returns \<open>pre @ post\<close>: everything from the first \<open>distkey\<close> through the
  last closing parenthesis of the whole text is deleted. On
  \<open>create table t (a int distkey, b int)\<close> the rule thereby loses \<open>, b int)\<close>.
\<close>

theorem distkey_span_is_greedy:
  "(split_first [IGNORECASE, MULTILINE, DOTALL] ''distkey'' sql = Some (pre, hit)
    \<and> after_last CHR '')'' (drop (length ''distkey'') hit) = Some post
    \<longrightarrow> re_sub distkey_to_paren [] sql [IGNORECASE, MULTILINE, DOTALL] = pre @ post)
   \<and> parse_dist_sort ''create table t (a int distkey, b int)'' = ''create table t (a int ''"
proof (intro conjI impI)
  assume a: "split_first [IGNORECASE, MULTILINE, DOTALL] ''distkey'' sql = Some (pre, hit)
    \<and> after_last CHR '')'' (drop (length ''distkey'') hit) = Some post"
  let ?fl = "[IGNORECASE, MULTILINE, DOTALL]"
  from a have sp: "split_first ?fl ''distkey'' sql = Some (pre, hit)"
    and al: "after_last CHR '')'' (drop (length ''distkey'') hit) = Some post"
    by simp_all
  have reject: "\<And>u g. \<not> starts_with ?fl ''distkey'' u \<Longrightarrow> rmatch ?fl distkey_to_paren u g = []"
    by (simp add: distkey_to_paren_def seq_Cons rmatch_lit_then)
  from split_first_Some[OF sp] have hit: "starts_with ?fl ''distkey'' hit" by simp
  have "rmatch ?fl distkey_to_paren hit Map.empty
        = rmatch ?fl (Seq (Star Any) (Seq (lit '')'') Eps)) (drop (length ''distkey'') hit) Map.empty"
    using hit by (simp add: distkey_to_paren_def seq_Cons seq_Nil rmatch_lit_then)
  then have fm: "first_match ?fl distkey_to_paren False hit = Some (post, Map.empty)"
    using al by (simp add: first_match_def first_after_last_rparen)
  from after_last_Some[OF al] have "CHR '')'' \<notin> set post" by blast
  then have tail: "\<And>adv. re_sub_from ?fl distkey_to_paren [] adv post = post"
    by (simp add: no_match_unchanged no_rparen_no_match)
  have "re_sub_from ?fl distkey_to_paren [] False hit = post"
    by (subst re_sub_from.simps) (simp add: fm tail)
  with sub_up_to_first[of ?fl "''distkey''" distkey_to_paren, OF reject sp]
  show "re_sub distkey_to_paren [] sql [IGNORECASE, MULTILINE, DOTALL] = pre @ post"
    by (simp add: re_sub_def)
next
  show "parse_dist_sort ''create table t (a int distkey, b int)'' = ''create table t (a int ''"
    by (simp only: eval_rules cong: eval_congs)
qed

lemma distkey_column_attribute_split:
  "split_first [IGNORECASE, MULTILINE, DOTALL] ''distkey'' ''create table t (a int distkey, b int)''
     = Some (''create table t (a int '', ''distkey, b int)'')"
  "after_last CHR '')'' (drop (length ''distkey'') ''distkey, b int)'') = Some []"
  by (simp_all add: lit_eq_def lower_Char)

theorem distkey_span_is_greedy_witness:
  "split_first [IGNORECASE, MULTILINE, DOTALL] ''distkey'' ''create table t (a int distkey, b int)''
     = Some (''create table t (a int '', ''distkey, b int)'')
   \<and> after_last CHR '')'' (drop (length ''distkey'') ''distkey, b int)'') = Some []
   \<and> re_sub distkey_to_paren [] ''create table t (a int distkey, b int)''
        [IGNORECASE, MULTILINE, DOTALL] = ''create table t (a int ''"
  using distkey_span_is_greedy [of "''create table t (a int distkey, b int)''"
      "''create table t (a int ''" "''distkey, b int)''" "[]"]
    distkey_column_attribute_split
  by (simp del: split_first.simps after_last.simps)

text \<open>
  C5. Storage-hint removal through the whole pipeline, evaluated on two inputs. On
  \<open>create table foo (a int) diststyle even distkey(a);\<close> the
  result holds no \<open>diststyle\<close> or \<open>distkey\<close> and its parentheses balance. On a table whose
  column carries the \<open>distkey\<close> attribute and is followed by a comma and a further column,
  the result has lost that column and the closing parenthesis of the table.
\<close>

theorem storage_hints_on_two_inputs:
  "parse_redshift_to_snowflake (Some ''create table foo (a int) diststyle even distkey(a);'')
     = Some ''create table foo (a int) ;''
   \<and> parse_redshift_to_snowflake (Some ''create table t (a int distkey, b int)'')
     = Some ''create table t (a int''"
proof (intro conjI)
  show "parse_redshift_to_snowflake (Some ''create table foo (a int) diststyle even distkey(a);'')
     = Some ''create table foo (a int) ;''"
    by (simp only: eval_rules cong: eval_congs)
  show "parse_redshift_to_snowflake (Some ''create table t (a int distkey, b int)'')
     = Some ''create table t (a int''"
    by (simp only: eval_rules cong: eval_congs)
qed

lemma hint_then_whitespace:
  "parse_trailing_whitespace (parse_dist_sort ''create table t (a int) distkey(a)'')
     = ''create table t (a int)''"
  by (simp only: eval_rules cong: eval_congs)

lemma whitespace_then_hint:
  "parse_dist_sort (parse_trailing_whitespace ''create table t (a int) distkey(a)'')
     = ''create table t (a int) ''"
  by (simp only: eval_rules cong: eval_congs)

text \<open>
  C9. Order dependence. There is a text on which storage-hint removal followed by
  trailing-whitespace cleanup differs from the two rules applied in the opposite order:
  \<open>create table t (a int) distkey(a)\<close> gives \<open>create table t (a int)\<close> one way and keeps
  the space at the end the other way.
\<close>

theorem rule_order_matters:
  "\<exists>sql. parse_trailing_whitespace (parse_dist_sort sql)
           \<noteq> parse_dist_sort (parse_trailing_whitespace sql)"
proof
  show "parse_trailing_whitespace (parse_dist_sort ''create table t (a int) distkey(a)'')
          \<noteq> parse_dist_sort (parse_trailing_whitespace ''create table t (a int) distkey(a)'')"
    by (simp only: hint_then_whitespace whitespace_then_hint) simp
qed

section \<open>Type normalization\<close>

text \<open>
  C8. Boolean normalization, evaluated where \<open>bool\<close> is the last column type before the
  closing parenthesis and where a cast ends the text: the pipeline returns both texts
  unchanged, \<open>bool\<close> is not rewritten. Followed by a comma, or by a space after a cast, it is.
\<close>

theorem bool_is_left_before_paren_and_at_end:
  "parse_redshift_to_snowflake (Some ''create table t (a bool)'') = Some ''create table t (a bool)''
   \<and> parse_redshift_to_snowflake (Some ''select x::bool'') = Some ''select x::bool''
   \<and> parse_redshift_to_snowflake (Some ''create table t (a bool, b int)'')
       = Some ''create table t (a boolean, b int)''
   \<and> parse_redshift_to_snowflake (Some ''select x::bool from t'')
       = Some ''select x:: boolean from t''"
proof (intro conjI)
  show "parse_redshift_to_snowflake (Some ''create table t (a bool)'') = Some ''create table t (a bool)''"
    by (simp only: eval_rules cong: eval_congs)
  show "parse_redshift_to_snowflake (Some ''select x::bool'') = Some ''select x::bool''"
    by (simp only: eval_rules cong: eval_congs)
  show "parse_redshift_to_snowflake (Some ''create table t (a bool, b int)'')
       = Some ''create table t (a boolean, b int)''"
    by (simp only: eval_rules cong: eval_congs)
  show "parse_redshift_to_snowflake (Some ''select x::bool from t'')
       = Some ''select x:: boolean from t''"
    by (simp only: eval_rules cong: eval_congs)
qed

section \<open>DDL shape translation\<close>




section \<open>Session statements\<close>




section \<open>Trailing-whitespace normalization\<close>

text \<open>
  C4. Where trailing-whitespace normalization stands. The text \<open>parse_trailing_whitespace\<close>
  returns never ends in whitespace. The rule is the sixth of the sixteen rules of the
  registry, after the five DDL cleanup rules: the text handed on to the seventh rule never
  ends in whitespace, and the result of the pipeline is what the last ten rules make of
  that text.
\<close>

theorem trailing_whitespace_rule_is_sixth:
  "\<not> ends_in_space (parse_trailing_whitespace sql)
   \<and> take 6 parsers = map returns [parse_encoding, parse_dist_sort, parse_bool, parse_int,
                                    parse_varchar, parse_trailing_whitespace]
   \<and> length parsers = 16
   \<and> \<not> ends_in_space (fst (run_parsers (take 6 parsers) sql))
   \<and> fst (parse_redshift_to_snowflake_with parsers (Some sql))
       = Some (fst (run_parsers (drop 6 parsers) (fst (run_parsers (take 6 parsers) sql))))"
proof (intro conjI)
  show "\<not> ends_in_space (parse_trailing_whitespace sql)"
    by (simp add: parse_trailing_whitespace_def rstrip_no_trailing_space)
  show six: "take 6 parsers = map returns [parse_encoding, parse_dist_sort, parse_bool, parse_int,
                                    parse_varchar, parse_trailing_whitespace]"
    by (simp add: parsers_def)
  show "length parsers = 16"
    by (simp add: parsers_def)
  define cur where "cur = fst (run_parsers (map returns [parse_encoding, parse_dist_sort, parse_bool,
                                                        parse_int, parse_varchar]) sql)"
  have "take 6 parsers = map returns [parse_encoding, parse_dist_sort, parse_bool, parse_int,
                                      parse_varchar] @ [returns parse_trailing_whitespace]"
    by (simp add: six)
  then have "fst (run_parsers (take 6 parsers) sql)
             = fst (run_parsers [returns parse_trailing_whitespace] cur)"
    by (simp only: run_parsers_append cur_def)
  then have eq: "fst (run_parsers (take 6 parsers) sql)
                 = (if cur = [] then [] else parse_trailing_whitespace cur)"
    by (simp only: run_single)
  have "\<not> ends_in_space []"
    by (simp add: ends_in_space_def)
  then have "\<not> ends_in_space (if cur = [] then [] else parse_trailing_whitespace cur)"
    by (simp add: parse_trailing_whitespace_def rstrip_no_trailing_space)
  then show "\<not> ends_in_space (fst (run_parsers (take 6 parsers) sql))"
    by (subst eq)
  have "parsers = take 6 parsers @ drop 6 parsers"
    by simp
  then have "fst (run_parsers parsers sql)
             = fst (run_parsers (drop 6 parsers) (fst (run_parsers (take 6 parsers) sql)))"
    by (metis run_parsers_append)
  then show "fst (parse_redshift_to_snowflake_with parsers (Some sql))
       = Some (fst (run_parsers (drop 6 parsers) (fst (run_parsers (take 6 parsers) sql))))"
    by (simp only: parse_redshift_to_snowflake_with_Some)
qed

lemma analyze_at_end:
  "parse_redshift_to_snowflake (Some ''select 1; analyze t;'') = Some ''select 1; ''"
  by (simp only: eval_rules cong: eval_congs)

text \<open>
  The ten rules that run after it can leave whitespace at the end of the final text:
  \<open>parse_analyze\<close> deletes the statement that ends \<open>select 1; analyze t;\<close> and the pipeline
  returns \<open>select 1; \<close> with its trailing space.
\<close>

theorem final_text_keeps_trailing_space:
  "parse_redshift_to_snowflake (Some ''select 1; analyze t;'') = Some ''select 1; ''
   \<and> ends_in_space ''select 1; ''
   \<and> parse_trailing_whitespace ''select 1; '' \<noteq> ''select 1; ''"
proof (intro conjI)
  show "parse_redshift_to_snowflake (Some ''select 1; analyze t;'') = Some ''select 1; ''"
    by (rule analyze_at_end)
  show "ends_in_space ''select 1; ''"
    by (simp add: ends_in_space_def is_space_Char)
  have "parse_trailing_whitespace ''select 1; '' = ''select 1;''"
    by (simp only: eval_rules cong: eval_congs)
  then show "parse_trailing_whitespace ''select 1; '' \<noteq> ''select 1; ''"
    by simp
qed

section \<open>Applying a rule twice\<close>

text \<open>
  C3. Applying a rule a second time. For every rule of the registry and every text: if none
  of the rule's patterns matches anywhere in the text the first application returned, a
  second application returns that text unchanged. \<open>parse_trailing_whitespace\<close> has no
  pattern, and is idempotent on every text. The table \<open>rule_patterns\<close> lists the rules of the
  registry in order.
\<close>

theorem second_application_when_untouched:
  "((f, ps) \<in> set rule_patterns \<and> untouched ps (f s) \<longrightarrow> f (f s) = f s)
   \<and> parse_trailing_whitespace (parse_trailing_whitespace s) = parse_trailing_whitespace s
   \<and> map (\<lambda>fp. returns (fst fp)) rule_patterns = parsers"
proof (intro conjI impI)
  assume "(f, ps) \<in> set rule_patterns \<and> untouched ps (f s)"
  then show "f (f s) = f s"
    using second_application by blast
next
  show "parse_trailing_whitespace (parse_trailing_whitespace s) = parse_trailing_whitespace s"
    by (rule trailing_whitespace_idempotent)
next
  show "map (\<lambda>fp. returns (fst fp)) rule_patterns = parsers"
    by (simp add: rule_patterns_def parsers_def)
qed

lemma bool_or_swapped:
  "parse_swap_methods ''select bool_or(x) from t'' = ''select BOOLOR_AGG(x) from t''"
  by (simp only: eval_rules cong: eval_congs)

lemma bool_or_swapped_untouched:
  "untouched (map (\<lambda>item. (fst item, [IGNORECASE])) swaps) ''select BOOLOR_AGG(x) from t''"
  by (simp only: untouched_def matches_in.simps list.pred_inject eval_rules cong: eval_congs)

theorem second_application_when_untouched_witness:
  "(parse_swap_methods, map (\<lambda>item. (fst item, [IGNORECASE])) swaps) \<in> set rule_patterns
   \<and> untouched (map (\<lambda>item. (fst item, [IGNORECASE])) swaps)
        (parse_swap_methods ''select bool_or(x) from t'')
   \<and> parse_swap_methods (parse_swap_methods ''select bool_or(x) from t'')
       = ''select BOOLOR_AGG(x) from t''"
proof -
  have h1: "(parse_swap_methods, map (\<lambda>item. (fst item, [IGNORECASE])) swaps) \<in> set rule_patterns"
    by (simp add: rule_patterns_def)
  have h2: "untouched (map (\<lambda>item. (fst item, [IGNORECASE])) swaps)
              (parse_swap_methods ''select bool_or(x) from t'')"
    by (simp only: bool_or_swapped bool_or_swapped_untouched)
  from second_application_when_untouched
         [of parse_swap_methods "map (\<lambda>item. (fst item, [IGNORECASE])) swaps"
             "''select bool_or(x) from t''"] h1 h2
  have "parse_swap_methods (parse_swap_methods ''select bool_or(x) from t'')
        = parse_swap_methods ''select bool_or(x) from t''"
    by blast
  with h1 h2 show ?thesis
    by (simp only: bool_or_swapped simp_thms)
qed

lemma isnull_first_pass: "parse_swap_methods ''ISNULL(x)'' = ''NVL(x)''"
  by (simp only: eval_rules cong: eval_congs)

lemma isnull_second_pass: "parse_swap_methods ''NVL(x)'' = ''COALESCE(x)''"
  by (simp only: eval_rules cong: eval_congs)

text \<open>
  Without that condition a second application can change the text again: the table of
  \<open>parse_swap_methods\<close> holds both \<open>ISNULL(\<close> to \<open>NVL(\<close> and \<open>NVL\<close> to \<open>COALESCE\<close>, the second before
  the first, so \<open>ISNULL(x)\<close> becomes \<open>NVL(x)\<close> and, applied again, \<open>COALESCE(x)\<close>.
\<close>

theorem swap_methods_not_idempotent:
  "parse_swap_methods (parse_swap_methods ''ISNULL(x)'') \<noteq> parse_swap_methods ''ISNULL(x)''"
  by (simp only: isnull_first_pass isnull_second_pass) simp

end
